theory Spec2Isabelle
  imports Main
begin

section \<open>Data model (the structs that \<open>src/main.py\<close> imports)\<close>

text \<open>
  Modelled from the spec: the declarations of \<open>Order\<close>, \<open>OrderPart\<close>, \<open>OrderLink\<close>,
  \<open>OrderStatus\<close> and \<open>OrderType\<close> (module \<open>src.structs.structs\<close>, imported by
  \<open>main.py\<close>) are not among the sources.  The records have the attributes of section 3 of
  the specification, under the names by which \<open>main.py\<close> reads and writes them
  (\<open>order["order_status"]\<close>, \<open>o.quantity\<close>, \<open>order_link.order_part_id\<close>, ...).
  A UUID is an opaque identifier, numbered by a natural number; a timestamp is a natural
  number as well.  The fields of \<open>OrderPart\<close> and \<open>OrderLink\<close> carry a prefix
  (\<open>op_\<close>, \<open>ol_\<close>) because a field name is a constant of the theory.
\<close>

type_synonym uuid = nat
type_synonym datetime = nat

datatype OrderType = BUY | SELL
datatype OrderStatus = OPEN | CLOSED

text \<open>
  Python values of the three types that meet in the comparison of \<open>update_order_status\<close>:
  \<open>order["user_id"] == str(order_id)\<close>.  \<open>==\<close> between an \<open>int\<close>, a \<open>UUID\<close> and a
  \<open>str\<close> is False in Python, as different constructors are different in HOL.  The
  \<open>user_id\<close> of an order is an \<open>int\<close> in the signature of \<open>get_orders\<close> and in the
  driver at the end of \<open>main.py\<close>; the field is a \<open>pyval\<close>, so that the comparison is
  written as the code has it, and the stores below use \<open>PInt\<close>.
\<close>

datatype pyval = PInt int | PUuid uuid | PStr string

record Order =
  order_id :: uuid
  user_id :: pyval
  item_id :: int
  order_type :: OrderType
  quantity :: int
  price :: int
  order_status :: OrderStatus

record OrderPart =
  op_order_part_id :: uuid
  op_executed_at :: datetime
  op_quantity :: int
  op_price :: int

record OrderLink =
  ol_order_id :: uuid
  ol_order_part_id :: uuid

datatype error = IndexError

section \<open>\<open>str()\<close> of the values involved\<close>

definition digit_char :: "nat \<Rightarrow> char" where
  "digit_char d = ''0123456789abcdef'' ! d"

fun dec_digits :: "nat \<Rightarrow> string" where
  "dec_digits n = (if n < 10 then [digit_char n] else dec_digits (n div 10) @ [digit_char (n mod 10)])"

declare dec_digits.simps [simp del]

definition hex_digits :: "nat \<Rightarrow> nat \<Rightarrow> nat \<Rightarrow> string" where
  "hex_digits u hi lo = map (\<lambda>k. digit_char ((u div 16 ^ k) mod 16)) (rev [lo..<hi])"

fun py_str :: "pyval \<Rightarrow> string" where
  "py_str (PInt i) = (if i < 0 then CHR ''-'' # dec_digits (nat (- i)) else dec_digits (nat i))"
| "py_str (PUuid u) =
     hex_digits u 32 24 @ ''-'' @ hex_digits u 24 20 @ ''-'' @ hex_digits u 20 16 @ ''-''
       @ hex_digits u 16 12 @ ''-'' @ hex_digits u 12 0"
| "py_str (PStr s) = s"

section \<open>\<open>JsonDatabase\<close>\<close>

text \<open>The class attribute \<open>db\<close>: three lists, appended to in place.\<close>

record JsonDatabase =
  orders :: "Order list"
  order_parts :: "OrderPart list"
  order_links :: "OrderLink list"

definition empty_db :: JsonDatabase where
  "empty_db = \<lparr>orders = [], order_parts = [], order_links = []\<rparr>"

definition add_order :: "JsonDatabase \<Rightarrow> Order \<Rightarrow> JsonDatabase" where
  "add_order db order = db\<lparr>orders := orders db @ [order]\<rparr>"

definition get_orders ::
  "JsonDatabase \<Rightarrow> uuid option \<Rightarrow> int option \<Rightarrow> pyval option \<Rightarrow> OrderType option
     \<Rightarrow> OrderStatus option \<Rightarrow> int option \<Rightarrow> int option \<Rightarrow> Order list" where
  "get_orders db oid iid uid otype status max_price min_price =
     filter (\<lambda>order.
         (oid = None \<or> Some (order_id order) = oid)
       \<and> (iid = None \<or> Some (item_id order) = iid)
       \<and> (uid = None \<or> Some (user_id order) = uid)
       \<and> (otype = None \<or> Some (order_type order) = otype)
       \<and> (status = None \<or> Some (order_status order) = status)
       \<and> (case max_price of None \<Rightarrow> True | Some m \<Rightarrow> price order \<le> m)
       \<and> (case min_price of None \<Rightarrow> True | Some m \<Rightarrow> price order \<ge> m))
       (orders db)"

text \<open>
  \<open>get_order_parts\<close>: the first loop collects the part ids of the links that pass the
  \<open>order_id\<close> test, the second loop keeps a part when its id is among them, or else
  when it is the requested \<open>order_part_id\<close>.
\<close>

definition collect_links :: "JsonDatabase \<Rightarrow> uuid option \<Rightarrow> uuid list" where
  "collect_links db oid =
     foldl (\<lambda>acc l. if oid = None \<or> Some (ol_order_id l) = oid
                     then acc @ [ol_order_part_id l] else acc)
       [] (order_links db)"

definition get_order_parts :: "JsonDatabase \<Rightarrow> uuid option \<Rightarrow> uuid option \<Rightarrow> OrderPart list" where
  "get_order_parts db oid pid =
     (let links = collect_links db oid in
      foldl (\<lambda>acc p. if op_order_part_id p \<in> set links then acc @ [p]
                      else if Some (op_order_part_id p) = pid then acc @ [p]
                      else acc)
        [] (order_parts db))"

definition get_order_remaining_quantity :: "JsonDatabase \<Rightarrow> uuid \<Rightarrow> error + int" where
  "get_order_remaining_quantity db oid =
     (case get_orders db (Some oid) None None None None None None of
        [] \<Rightarrow> Inl IndexError
      | order # _ \<Rightarrow>
          (let order_part_ids = get_order_parts db (Some oid) None;
               filled_quantity = sum_list (map op_quantity order_part_ids)
           in Inr (quantity order - filled_quantity)))"

text \<open>
  \<open>update_order_status\<close>: the first stored order whose \<open>user_id\<close> equals
  \<open>str(order_id)\<close> gets the status; the loop then breaks, and it ends without effect
  when no order matches.  The argument is a UUID at one call site (\<open>match.order_id\<close>) and
  a \<open>user_id\<close> at the other (\<open>primary_order.user_id\<close>), hence a \<open>pyval\<close>.  The code
  stores \<open>status.value\<close>; the model stores the status it stands for.
\<close>

fun update_first :: "pyval \<Rightarrow> OrderStatus \<Rightarrow> Order list \<Rightarrow> Order list" where
  "update_first oid status [] = []"
| "update_first oid status (order # rest) =
     (if user_id order = PStr (py_str oid)
      then order\<lparr>order_status := status\<rparr> # rest
      else order # update_first oid status rest)"

definition update_order_status :: "JsonDatabase \<Rightarrow> pyval \<Rightarrow> OrderStatus \<Rightarrow> JsonDatabase" where
  "update_order_status db oid status = db\<lparr>orders := update_first oid status (orders db)\<rparr>"

definition add_order_part :: "JsonDatabase \<Rightarrow> OrderPart \<Rightarrow> JsonDatabase" where
  "add_order_part db order_part = db\<lparr>order_parts := order_parts db @ [order_part]\<rparr>"

definition add_order_link :: "JsonDatabase \<Rightarrow> OrderLink \<Rightarrow> JsonDatabase" where
  "add_order_link db order_link = db\<lparr>order_links := order_links db @ [order_link]\<rparr>"

section \<open>\<open>Exchange\<close>\<close>

text \<open>
  \<open>OrderPart(...)\<close> draws a new \<open>order_part_id\<close> and reads the clock.  The
  parameter \<open>fresh\<close> gives both: \<open>fresh i\<close> is the id and the time of the
  \<open>i\<close>-th part constructed during one call.

  \<open>fulfill_loop\<close> is the \<open>for\<close> loop of \<open>_fulfill_order\<close>, with the running
  \<open>remaining_quantity\<close>; \<open>fulfill_order\<close> adds the status update of the primary
  order and returns the database together with the caller's order object, whose
  \<open>quantity\<close> the last line overwrites (the stored copy is untouched).
\<close>

fun fulfill_loop ::
  "(nat \<Rightarrow> uuid \<times> datetime) \<Rightarrow> nat \<Rightarrow> Order \<Rightarrow> Order list \<Rightarrow> int \<Rightarrow> JsonDatabase
     \<Rightarrow> error + (int \<times> JsonDatabase)" where
  "fulfill_loop fresh i primary_order [] remaining_quantity db = Inr (remaining_quantity, db)"
| "fulfill_loop fresh i primary_order (match # rest) remaining_quantity db =
     (if remaining_quantity \<le> 0 then Inr (remaining_quantity, db)
      else case get_order_remaining_quantity db (order_id match) of
        Inl e \<Rightarrow> Inl e
      | Inr match_quantity \<Rightarrow>
          (let fill_quantity = min remaining_quantity match_quantity;
               remaining_quantity' = remaining_quantity - fill_quantity;
               order_part = \<lparr>op_order_part_id = fst (fresh i), op_executed_at = snd (fresh i),
                             op_quantity = fill_quantity, op_price = price match\<rparr>;
               db1 = add_order_part db order_part;
               db2 = add_order_link db1
                       \<lparr>ol_order_id = order_id primary_order,
                        ol_order_part_id = op_order_part_id order_part\<rparr>;
               db3 = add_order_link db2
                       \<lparr>ol_order_id = order_id match,
                        ol_order_part_id = op_order_part_id order_part\<rparr>;
               db4 = (if quantity match = fill_quantity
                      then update_order_status db3 (PUuid (order_id match)) CLOSED
                      else db3)
           in fulfill_loop fresh (Suc i) primary_order rest remaining_quantity' db4))"

definition fulfill_order ::
  "(nat \<Rightarrow> uuid \<times> datetime) \<Rightarrow> JsonDatabase \<Rightarrow> Order \<Rightarrow> Order list
     \<Rightarrow> error + (JsonDatabase \<times> Order)" where
  "fulfill_order fresh db primary_order matching_orders =
     (case fulfill_loop fresh 0 primary_order matching_orders (quantity primary_order) db of
        Inl e \<Rightarrow> Inl e
      | Inr (remaining_quantity, db') \<Rightarrow>
          if remaining_quantity = 0
          then Inr (update_order_status db' (user_id primary_order) CLOSED, primary_order)
          else Inr (db', primary_order\<lparr>quantity := remaining_quantity\<rparr>))"

text \<open>
  \<open>list.sort(key=...)\<close> is stable, as \<open>sort_key\<close> is (\<open>sort_key_stable\<close>).
\<close>

definition open_sell_orders :: "JsonDatabase \<Rightarrow> Order \<Rightarrow> Order list" where
  "open_sell_orders db buy_order =
     sort_key price
       (get_orders db None (Some (item_id buy_order)) None (Some SELL) (Some OPEN)
          (Some (price buy_order)) None)"

definition open_buy_orders :: "JsonDatabase \<Rightarrow> Order \<Rightarrow> Order list" where
  "open_buy_orders db sell_order =
     sort_key price
       (get_orders db None (Some (item_id sell_order)) None (Some BUY) (Some OPEN)
          None (Some (price sell_order)))"

definition match_buy_order ::
  "(nat \<Rightarrow> uuid \<times> datetime) \<Rightarrow> JsonDatabase \<Rightarrow> Order \<Rightarrow> error + (JsonDatabase \<times> Order)" where
  "match_buy_order fresh db buy_order =
     fulfill_order fresh db buy_order (open_sell_orders db buy_order)"

definition match_sell_order ::
  "(nat \<Rightarrow> uuid \<times> datetime) \<Rightarrow> JsonDatabase \<Rightarrow> Order \<Rightarrow> error + (JsonDatabase \<times> Order)" where
  "match_sell_order fresh db sell_order =
     fulfill_order fresh db sell_order (open_buy_orders db sell_order)"

definition place_order ::
  "(nat \<Rightarrow> uuid \<times> datetime) \<Rightarrow> JsonDatabase \<Rightarrow> Order \<Rightarrow> error + (JsonDatabase \<times> Order)" where
  "place_order fresh db order =
     (let db1 = add_order db order in
      case order_type order of
        BUY \<Rightarrow> match_buy_order fresh db1 order
      | SELL \<Rightarrow> match_sell_order fresh db1 order)"


section \<open>Auxiliary definitions for the proofs\<close>

text \<open>
  \<open>core\<close> is what \<open>update_order_status\<close> never changes in a stored order;
  \<open>after_fill\<close> is the store after one iteration of the loop of \<open>_fulfill_order\<close>
  (lemma \<open>fulfill_loop_step\<close> relates the two).
\<close>

definition core :: "Order \<Rightarrow> uuid \<times> OrderType \<times> int \<times> int" where
  "core order = (order_id order, order_type order, quantity order, price order)"

definition after_fill ::
  "(nat \<Rightarrow> uuid \<times> datetime) \<Rightarrow> nat \<Rightarrow> Order \<Rightarrow> Order \<Rightarrow> int \<Rightarrow> JsonDatabase \<Rightarrow> JsonDatabase" where
  "after_fill fresh i primary_order match fill_quantity db =
     (let order_part = \<lparr>op_order_part_id = fst (fresh i), op_executed_at = snd (fresh i),
                         op_quantity = fill_quantity, op_price = price match\<rparr>;
          db1 = add_order_part db order_part;
          db2 = add_order_link db1
                  \<lparr>ol_order_id = order_id primary_order,
                   ol_order_part_id = op_order_part_id order_part\<rparr>;
          db3 = add_order_link db2
                  \<lparr>ol_order_id = order_id match,
                   ol_order_part_id = op_order_part_id order_part\<rparr>
      in if quantity match = fill_quantity
         then update_order_status db3 (PUuid (order_id match)) CLOSED
         else db3)"

text \<open>
  The allocation rule in the words of the specification: each step fills
  \<open>min(remaining, candidate's remaining quantity)\<close>, decrements \<open>remaining\<close> by the
  fill, and the iteration stops once \<open>remaining \<le> 0\<close>.  The list holds the
  candidates' remaining quantities; the result is the list of fills.
\<close>

fun allocation :: "int \<Rightarrow> int list \<Rightarrow> int list" where
  "allocation remaining [] = []"
| "allocation remaining (q # qs) =
     (if remaining \<le> 0 then []
      else min remaining q # allocation (remaining - min remaining q) qs)"

text \<open>
  A part is settled when exactly two link records reference it, the two links name
  different order ids, and each id resolves to exactly one stored order, one of them a
  BUY and the other a SELL.
\<close>

definition links_of_part :: "JsonDatabase \<Rightarrow> uuid \<Rightarrow> OrderLink list" where
  "links_of_part db pid = filter (\<lambda>l. ol_order_part_id l = pid) (order_links db)"

definition order_types :: "JsonDatabase \<Rightarrow> uuid \<Rightarrow> OrderType list" where
  "order_types db oid = map order_type (get_orders db (Some oid) None None None None None None)"

definition part_settled :: "JsonDatabase \<Rightarrow> OrderPart \<Rightarrow> bool" where
  "part_settled db p =
     (case links_of_part db (op_order_part_id p) of
        [l1, l2] \<Rightarrow>
          ol_order_id l1 \<noteq> ol_order_id l2
          \<and> (order_types db (ol_order_id l1), order_types db (ol_order_id l2))
               \<in> {([BUY], [SELL]), ([SELL], [BUY])}
      | _ \<Rightarrow> False)"

definition well_linked :: "JsonDatabase \<Rightarrow> bool" where
  "well_linked db = list_all (part_settled db) (order_parts db)"

text \<open>
  The invariant behind \<open>well_linked\<close>: order ids are unique, every link names a stored
  part, and every part is settled.
\<close>

definition consistent :: "JsonDatabase \<Rightarrow> bool" where
  "consistent db \<longleftrightarrow>
     distinct (map order_id (orders db))
     \<and> ol_order_part_id ` set (order_links db) \<subseteq> op_order_part_id ` set (order_parts db)
     \<and> well_linked db"

text \<open>The candidate list that \<open>place_order\<close> hands to \<open>_fulfill_order\<close>.\<close>

definition candidates :: "JsonDatabase \<Rightarrow> Order \<Rightarrow> Order list" where
  "candidates db order =
     (case order_type order of
        BUY \<Rightarrow> open_sell_orders db order
      | SELL \<Rightarrow> open_buy_orders db order)"

text \<open>
  The candidates of a BUY in the words of the specification: the stored orders that are
  OPEN, of type SELL, on the buy order's item, priced at most at the buy order's price, in
  the order of the store.
\<close>

definition open_asks :: "JsonDatabase \<Rightarrow> Order \<Rightarrow> Order list" where
  "open_asks db buy_order =
     filter (\<lambda>order. order_status order = OPEN \<and> order_type order = SELL
                     \<and> item_id order = item_id buy_order \<and> price order \<le> price buy_order)
       (orders db)"

text \<open>
  The stores that calls of \<open>place_order\<close> produce from the empty one, when every new
  order carries an \<open>order_id\<close> that no stored order has and every new part gets an
  \<open>order_part_id\<close> that no stored part has (both ids are drawn by \<open>uuid4\<close>).
\<close>

inductive reachable :: "JsonDatabase \<Rightarrow> bool" where
  init: "reachable empty_db"
| step: "reachable db \<Longrightarrow>
         order_id order \<notin> order_id ` set (orders db) \<Longrightarrow>
         inj (\<lambda>i. fst (fresh i)) \<Longrightarrow>
         (\<forall>i. fst (fresh i) \<notin> op_order_part_id ` set (order_parts db)) \<Longrightarrow>
         place_order fresh db order = Inr (db', order') \<Longrightarrow>
         reachable db'"

section \<open>Concrete stores\<close>

text \<open>
  The orders of the driver at the end of \<open>main.py\<close> (ids 1 to 3) and the stores after
  the first and the second placement.  \<open>fresh_from base t\<close> numbers the
  parts of one call from \<open>base\<close> and stamps them with the time \<open>t\<close>.
\<close>

definition fresh_from :: "nat \<Rightarrow> datetime \<Rightarrow> nat \<Rightarrow> uuid \<times> datetime" where
  "fresh_from base t i = (base + i, t)"

definition demo_buy :: Order where
  "demo_buy = \<lparr>order_id = 1, user_id = PInt 1, item_id = 1001, order_type = BUY,
                quantity = 10, price = 150, order_status = OPEN\<rparr>"

definition demo_sell :: Order where
  "demo_sell = \<lparr>order_id = 2, user_id = PInt 2, item_id = 1001, order_type = SELL,
                 quantity = 5, price = 140, order_status = OPEN\<rparr>"

definition demo_sell2 :: Order where
  "demo_sell2 = \<lparr>order_id = 3, user_id = PInt 3, item_id = 1001, order_type = SELL,
                  quantity = 5, price = 150, order_status = OPEN\<rparr>"

definition store1 :: JsonDatabase where
  "store1 = \<lparr>orders = [demo_buy], order_parts = [], order_links = []\<rparr>"

definition store2 :: JsonDatabase where
  "store2 = \<lparr>orders = [demo_buy, demo_sell],
     order_parts = [\<lparr>op_order_part_id = 200, op_executed_at = 2, op_quantity = 5, op_price = 150\<rparr>],
     order_links = [\<lparr>ol_order_id = 2, ol_order_part_id = 200\<rparr>,
                    \<lparr>ol_order_id = 1, ol_order_part_id = 200\<rparr>]\<rparr>"

text \<open>
  A BUY that one SELL fills completely, and the stores of three placements
  (\<open>full_buy\<close>, \<open>demo_sell\<close>, \<open>demo_sell2\<close>).
\<close>

definition full_buy :: Order where
  "full_buy = \<lparr>order_id = 41, user_id = PInt 1, item_id = 1001, order_type = BUY,
                quantity = 5, price = 150, order_status = OPEN\<rparr>"

definition zstore1 :: JsonDatabase where
  "zstore1 = \<lparr>orders = [full_buy], order_parts = [], order_links = []\<rparr>"

definition zstore2 :: JsonDatabase where
  "zstore2 = \<lparr>orders = [full_buy, demo_sell],
     order_parts = [\<lparr>op_order_part_id = 200, op_executed_at = 2, op_quantity = 5, op_price = 150\<rparr>],
     order_links = [\<lparr>ol_order_id = 2, ol_order_part_id = 200\<rparr>,
                    \<lparr>ol_order_id = 41, ol_order_part_id = 200\<rparr>]\<rparr>"

definition zstore3 :: JsonDatabase where
  "zstore3 = \<lparr>orders = [full_buy, demo_sell, demo_sell2],
     order_parts = [\<lparr>op_order_part_id = 200, op_executed_at = 2, op_quantity = 5, op_price = 150\<rparr>,
                    \<lparr>op_order_part_id = 300, op_executed_at = 3, op_quantity = 0, op_price = 150\<rparr>],
     order_links = [\<lparr>ol_order_id = 2, ol_order_part_id = 200\<rparr>,
                    \<lparr>ol_order_id = 41, ol_order_part_id = 200\<rparr>,
                    \<lparr>ol_order_id = 3, ol_order_part_id = 300\<rparr>,
                    \<lparr>ol_order_id = 41, ol_order_part_id = 300\<rparr>]\<rparr>"

text \<open>One user on both sides of an item.\<close>

definition self_sell :: Order where
  "self_sell = \<lparr>order_id = 11, user_id = PInt 7, item_id = 1001, order_type = SELL,
                 quantity = 5, price = 100, order_status = OPEN\<rparr>"

definition self_buy :: Order where
  "self_buy = \<lparr>order_id = 12, user_id = PInt 7, item_id = 1001, order_type = BUY,
                quantity = 5, price = 100, order_status = OPEN\<rparr>"

definition self_store1 :: JsonDatabase where
  "self_store1 = \<lparr>orders = [self_sell], order_parts = [], order_links = []\<rparr>"

definition self_store2 :: JsonDatabase where
  "self_store2 = \<lparr>orders = [self_sell, self_buy],
     order_parts = [\<lparr>op_order_part_id = 500, op_executed_at = 2, op_quantity = 5, op_price = 100\<rparr>],
     order_links = [\<lparr>ol_order_id = 12, ol_order_part_id = 500\<rparr>,
                    \<lparr>ol_order_id = 11, ol_order_part_id = 500\<rparr>]\<rparr>"

text \<open>An order whose \<open>user_id\<close> is the string \<open>7\<close>.\<close>

definition str_user_order :: Order where
  "str_user_order = \<lparr>order_id = 21, user_id = PStr ''7'', item_id = 1001, order_type = BUY,
                      quantity = 1, price = 1, order_status = OPEN\<rparr>"

text \<open>Two resting SELL orders at one price, and a BUY that takes part of them.\<close>

definition tie_sell_a :: Order where
  "tie_sell_a = \<lparr>order_id = 31, user_id = PInt 5, item_id = 7, order_type = SELL,
                  quantity = 3, price = 100, order_status = OPEN\<rparr>"

definition tie_sell_b :: Order where
  "tie_sell_b = \<lparr>order_id = 32, user_id = PInt 6, item_id = 7, order_type = SELL,
                  quantity = 4, price = 100, order_status = OPEN\<rparr>"

definition tie_buy :: Order where
  "tie_buy = \<lparr>order_id = 33, user_id = PInt 8, item_id = 7, order_type = BUY,
               quantity = 5, price = 100, order_status = OPEN\<rparr>"

definition tie_store :: JsonDatabase where
  "tie_store = \<lparr>orders = [tie_sell_a, tie_sell_b, tie_buy], order_parts = [], order_links = []\<rparr>"

text \<open>Four resting SELL orders on item 7; \<open>tie_buy\<close> bids 100.\<close>

definition cheap_sell :: Order where
  "cheap_sell = \<lparr>order_id = 34, user_id = PInt 9, item_id = 7, order_type = SELL,
                  quantity = 1, price = 90, order_status = OPEN\<rparr>"

definition dear_sell :: Order where
  "dear_sell = \<lparr>order_id = 35, user_id = PInt 9, item_id = 7, order_type = SELL,
                 quantity = 2, price = 120, order_status = OPEN\<rparr>"

definition ask_book :: JsonDatabase where
  "ask_book = \<lparr>orders = [tie_sell_a, dear_sell, cheap_sell, tie_sell_b],
                order_parts = [], order_links = []\<rparr>"

text \<open>
  The second scenario of the specification with any ids: a resting BUY of 10 at 150 and an
  incoming SELL of 5 at 140 on item 1001, the \<open>user_id\<close>s integers.
\<close>

definition resting_buy :: "uuid \<Rightarrow> int \<Rightarrow> Order" where
  "resting_buy oid uid = \<lparr>order_id = oid, user_id = PInt uid, item_id = 1001, order_type = BUY,
                          quantity = 10, price = 150, order_status = OPEN\<rparr>"

definition incoming_sell :: "uuid \<Rightarrow> int \<Rightarrow> Order" where
  "incoming_sell oid uid = \<lparr>order_id = oid, user_id = PInt uid, item_id = 1001, order_type = SELL,
                            quantity = 5, price = 140, order_status = OPEN\<rparr>"

section \<open>Facts about the store\<close>

lemmas store_defs = add_order_def get_orders_def get_order_parts_def collect_links_def
  get_order_remaining_quantity_def update_order_status_def add_order_part_def add_order_link_def

lemmas exchange_defs = place_order_def match_buy_order_def match_sell_order_def
  open_sell_orders_def open_buy_orders_def fulfill_order_def

lemmas demo_defs = fresh_from_def empty_db_def demo_buy_def demo_sell_def demo_sell2_def
  store1_def store2_def full_buy_def zstore1_def zstore2_def zstore3_def
  self_sell_def self_buy_def self_store1_def self_store2_def

lemmas tie_defs = tie_sell_a_def tie_sell_b_def tie_buy_def tie_store_def fresh_from_def

lemma foldl_append_if:
  "foldl (\<lambda>acc x. if P x then acc @ [f x] else acc) a xs = a @ map f (filter P xs)"
  by (induction xs arbitrary: a) simp_all

lemma collect_links_eq:
  "collect_links db oid =
     map ol_order_part_id (filter (\<lambda>l. oid = None \<or> Some (ol_order_id l) = oid) (order_links db))"
  unfolding collect_links_def by (rule foldl_append_if[where a = "[]", simplified])

lemma foldl_append_elif:
  "foldl (\<lambda>acc x. if P x then acc @ [x] else if Q x then acc @ [x] else acc) a xs
     = a @ filter (\<lambda>x. P x \<or> Q x) xs"
  by (induction xs arbitrary: a) simp_all

lemma get_order_parts_eq:
  "get_order_parts db oid pid =
     filter (\<lambda>p. op_order_part_id p \<in> set (collect_links db oid) \<or> Some (op_order_part_id p) = pid)
       (order_parts db)"
  unfolding get_order_parts_def Let_def by (rule foldl_append_elif[where a = "[]", simplified])

lemma get_orders_by_id:
  "get_orders db (Some oid) None None None None None None
     = filter (\<lambda>order. order_id order = oid) (orders db)"
  by (simp add: get_orders_def)

lemma find_filter_id:
  "find (\<lambda>order. order_id order = oid) xs =
     (case filter (\<lambda>order. order_id order = oid) xs of [] \<Rightarrow> None | x # _ \<Rightarrow> Some x)"
  by (induction xs) simp_all

lemma update_first_core: "map core (update_first a s xs) = map core xs"
  by (induction xs) (simp_all add: core_def)

lemma update_order_status_core [simp]:
  "map core (orders (update_order_status db a s)) = map core (orders db)"
  by (simp add: update_order_status_def update_first_core)

lemma update_order_status_parts [simp]:
  "order_parts (update_order_status db a s) = order_parts db"
  by (simp add: update_order_status_def)

lemma update_order_status_links [simp]:
  "order_links (update_order_status db a s) = order_links db"
  by (simp add: update_order_status_def)

lemma filter_core:
  "map core (filter (\<lambda>order. order_id order = oid) xs) = filter (\<lambda>c. fst c = oid) (map core xs)"
  by (induction xs) (simp_all add: core_def)

lemma remaining_by_core:
  "get_order_remaining_quantity db oid =
     (case filter (\<lambda>c. fst c = oid) (map core (orders db)) of
        [] \<Rightarrow> Inl IndexError
      | c # _ \<Rightarrow> Inr (fst (snd (snd c))
                      - sum_list (map op_quantity (get_order_parts db (Some oid) None))))"
proof -
  let ?xs = "filter (\<lambda>order. order_id order = oid) (orders db)"
  have "filter (\<lambda>c. fst c = oid) (map core (orders db)) = map core ?xs"
    by (simp add: filter_core)
  then show ?thesis
    by (cases ?xs)
       (simp_all add: get_order_remaining_quantity_def get_orders_by_id Let_def core_def)
qed

lemma order_types_core:
  "order_types db oid = map (\<lambda>c. fst (snd c)) (filter (\<lambda>c. fst c = oid) (map core (orders db)))"
proof -
  have "map order_type xs = map (\<lambda>c. fst (snd c)) (map core xs)" for xs :: "Order list"
    by (simp add: core_def)
  then show ?thesis
    by (simp only: order_types_def get_orders_by_id filter_core[symmetric])
qed

lemma order_types_cong:
  "map core (orders db') = map core (orders db) \<Longrightarrow> order_types db' oid = order_types db oid"
  by (simp add: order_types_core)

lemma part_settled_cong:
  assumes "links_of_part db' (op_order_part_id p) = links_of_part db (op_order_part_id p)"
      and "map core (orders db') = map core (orders db)"
  shows "part_settled db' p = part_settled db p"
  using assms(1)
  by (simp add: part_settled_def order_types_cong[OF assms(2)] cong: list.case_cong)

lemma order_types_nonempty_iff:
  "order_types db oid \<noteq> [] \<longleftrightarrow> oid \<in> order_id ` set (orders db)"
  by (auto simp: order_types_def get_orders_by_id filter_empty_conv image_iff)

lemma order_types_unique:
  assumes "distinct (map order_id (orders db))" and "m \<in> set (orders db)"
  shows "order_types db (order_id m) = [order_type m]"
proof -
  have "filter (\<lambda>order. order_id order = order_id m) xs = [m]"
    if "distinct (map order_id xs)" "m \<in> set xs" for xs :: "Order list"
    using that by (induction xs) (auto simp: filter_empty_conv image_iff)
  with assms show ?thesis by (simp add: order_types_def get_orders_by_id)
qed

lemma remaining_defined:
  assumes "order_types db oid \<noteq> []"
  shows "\<exists>q. get_order_remaining_quantity db oid = Inr q"
  using assms
  by (cases "filter (\<lambda>order. order_id order = oid) (orders db)")
     (simp_all add: order_types_def get_order_remaining_quantity_def get_orders_by_id Let_def)

section \<open>Facts about the loop of \<open>_fulfill_order\<close>\<close>

lemma fulfill_loop_step:
  assumes "0 < r" and "get_order_remaining_quantity db (order_id m) = Inr q"
  shows "fulfill_loop fresh i P (m # ms) r db =
           fulfill_loop fresh (Suc i) P ms (r - min r q) (after_fill fresh i P m (min r q) db)"
  using assms by (simp add: after_fill_def Let_def)

lemma fulfill_loop_stop:
  "r \<le> 0 \<Longrightarrow> fulfill_loop fresh i P ms r db = Inr (r, db)"
  by (cases ms) simp_all

lemmas fulfill_loop_unfold = fulfill_loop.simps(2)

declare fulfill_loop.simps(2) [simp del]

lemma after_fill_core [simp]:
  "map core (orders (after_fill fresh i P m f db)) = map core (orders db)"
  by (simp add: after_fill_def Let_def add_order_part_def add_order_link_def)

lemma after_fill_parts [simp]:
  "order_parts (after_fill fresh i P m f db) =
     order_parts db @ [\<lparr>op_order_part_id = fst (fresh i), op_executed_at = snd (fresh i),
                        op_quantity = f, op_price = price m\<rparr>]"
  by (simp add: after_fill_def Let_def add_order_part_def add_order_link_def)

lemma after_fill_links [simp]:
  "order_links (after_fill fresh i P m f db) =
     order_links db @ [\<lparr>ol_order_id = order_id P, ol_order_part_id = fst (fresh i)\<rparr>,
                       \<lparr>ol_order_id = order_id m, ol_order_part_id = fst (fresh i)\<rparr>]"
  by (simp add: after_fill_def Let_def add_order_part_def add_order_link_def)

lemma collect_links_after_fill:
  assumes "oid \<noteq> order_id P" and "oid \<noteq> order_id m"
  shows "collect_links (after_fill fresh i P m f db) (Some oid) = collect_links db (Some oid)"
  using assms by (simp add: collect_links_eq)

lemma get_order_parts_after_fill:
  assumes "oid \<noteq> order_id P" and "oid \<noteq> order_id m"
      and "fst (fresh i) \<notin> set (collect_links db (Some oid))"
  shows "get_order_parts (after_fill fresh i P m f db) (Some oid) None
           = get_order_parts db (Some oid) None"
  using assms by (simp add: get_order_parts_eq collect_links_after_fill)

lemma remaining_after_fill:
  assumes "oid \<noteq> order_id P" and "oid \<noteq> order_id m"
      and "fst (fresh i) \<notin> set (collect_links db (Some oid))"
  shows "get_order_remaining_quantity (after_fill fresh i P m f db) oid
           = get_order_remaining_quantity db oid"
  using assms
  by (simp add: remaining_by_core get_order_parts_after_fill cong: list.case_cong)

lemma fulfill_loop_allocation:
  assumes "map (\<lambda>m. get_order_remaining_quantity db (order_id m)) ms = map Inr qs"
      and "distinct (map order_id ms)"
      and "order_id P \<notin> order_id ` set ms"
      and "\<forall>j\<ge>i. \<forall>m\<in>set ms. fst (fresh j) \<notin> set (collect_links db (Some (order_id m)))"
  shows "\<exists>db' new. fulfill_loop fresh i P ms r db = Inr (r - sum_list (allocation r qs), db')
           \<and> order_parts db' = order_parts db @ new
           \<and> map op_quantity new = allocation r qs"
  using assms
proof (induction ms arbitrary: i r db qs)
  case Nil
  then show ?case by simp
next
  case (Cons m ms)
  from Cons.prems(1) obtain q qs' where qs: "qs = q # qs'"
    and q: "get_order_remaining_quantity db (order_id m) = Inr q"
    and rest: "map (\<lambda>m. get_order_remaining_quantity db (order_id m)) ms = map Inr qs'"
    by (cases qs) auto
  show ?case
  proof (cases "r \<le> 0")
    case True
    then show ?thesis by (simp add: qs fulfill_loop_stop)
  next
    case False
    let ?db = "after_fill fresh i P m (min r q) db"
    have ne: "order_id m' \<noteq> order_id P" "order_id m' \<noteq> order_id m" if "m' \<in> set ms" for m'
      using that Cons.prems(2,3) by (auto simp: image_iff)
    have same: "get_order_remaining_quantity ?db (order_id m')
                  = get_order_remaining_quantity db (order_id m')"
      if "m' \<in> set ms" for m'
      using that ne[OF that] Cons.prems(4) by (intro remaining_after_fill) auto
    have a1: "map (\<lambda>m. get_order_remaining_quantity ?db (order_id m)) ms = map Inr qs'"
      using rest same by (metis (no_types, lifting) map_eq_conv)
    have a2: "distinct (map order_id ms)" using Cons.prems(2) by simp
    have a3: "order_id P \<notin> order_id ` set ms" using Cons.prems(3) by simp
    have a4: "\<forall>j\<ge>Suc i. \<forall>m'\<in>set ms.
                fst (fresh j) \<notin> set (collect_links ?db (Some (order_id m')))"
    proof (intro allI impI ballI)
      fix j m' assume j: "Suc i \<le> j" and m': "m' \<in> set ms"
      have "collect_links ?db (Some (order_id m')) = collect_links db (Some (order_id m'))"
        using ne[OF m'] by (intro collect_links_after_fill)
      moreover have "fst (fresh j) \<notin> set (collect_links db (Some (order_id m')))"
        using Cons.prems(4) j m' by auto
      ultimately show "fst (fresh j) \<notin> set (collect_links ?db (Some (order_id m')))" by simp
    qed
    from Cons.IH[OF a1 a2 a3 a4, of "r - min r q"]
    obtain db' new where
      run: "fulfill_loop fresh (Suc i) P ms (r - min r q) ?db
              = Inr (r - min r q - sum_list (allocation (r - min r q) qs'), db')"
      and parts: "order_parts db' = order_parts ?db @ new"
      and fills: "map op_quantity new = allocation (r - min r q) qs'"
      by blast
    have "fulfill_loop fresh i P (m # ms) r db = Inr (r - sum_list (allocation r qs), db')"
      using False q run by (simp add: fulfill_loop_step qs)
    moreover have "order_parts db' = order_parts db @
        (\<lparr>op_order_part_id = fst (fresh i), op_executed_at = snd (fresh i),
          op_quantity = min r q, op_price = price m\<rparr> # new)"
      using parts by simp
    moreover have "map op_quantity (\<lparr>op_order_part_id = fst (fresh i),
          op_executed_at = snd (fresh i), op_quantity = min r q, op_price = price m\<rparr> # new)
        = allocation r qs"
      using False fills by (simp add: qs)
    ultimately show ?thesis by blast
  qed
qed

lemma allocation_total:
  assumes "0 \<le> r" and "\<forall>q\<in>set qs. 0 \<le> q"
  shows "sum_list (allocation r qs) = min r (sum_list qs)"
  using assms
proof (induction qs arbitrary: r)
  case Nil
  then show ?case by simp
next
  case (Cons q qs)
  have nn: "0 \<le> sum_list qs" using Cons.prems(2) by (simp add: sum_list_nonneg)
  show ?case
  proof (cases "r \<le> 0")
    case True
    with Cons.prems nn show ?thesis by simp
  next
    case False
    have "sum_list (allocation (r - min r q) qs) = min (r - min r q) (sum_list qs)"
      using Cons.prems by (intro Cons.IH) auto
    with False Cons.prems nn show ?thesis by auto
  qed
qed

lemma fulfill_loop_linked:
  assumes "ol_order_part_id ` set (order_links db) \<subseteq> op_order_part_id ` set (order_parts db)"
      and "well_linked db"
      and "order_types db (order_id P) = [tP]"
      and "\<forall>m\<in>set ms. \<exists>t. order_types db (order_id m) = [t] \<and> t \<noteq> tP"
      and "\<forall>j\<ge>i. fst (fresh j) \<notin> op_order_part_id ` set (order_parts db)"
      and "inj (\<lambda>j. fst (fresh j))"
  shows "\<exists>r' db'. fulfill_loop fresh i P ms r db = Inr (r', db')
           \<and> ol_order_part_id ` set (order_links db') \<subseteq> op_order_part_id ` set (order_parts db')
           \<and> well_linked db'
           \<and> map core (orders db') = map core (orders db)"
  using assms
proof (induction ms arbitrary: i r db)
  case Nil
  then show ?case by simp
next
  case (Cons m ms)
  show ?case
  proof (cases "r \<le> 0")
    case True
    with Cons.prems show ?thesis by (simp add: fulfill_loop_stop)
  next
    case False
    from Cons.prems(4) obtain t where t: "order_types db (order_id m) = [t]" "t \<noteq> tP" by auto
    then obtain q where q: "get_order_remaining_quantity db (order_id m) = Inr q"
      using remaining_defined[of db "order_id m"] by auto
    let ?x = "fst (fresh i)"
    let ?db = "after_fill fresh i P m (min r q) db"
    have x_new: "?x \<notin> op_order_part_id ` set (order_parts db)" using Cons.prems(5) by simp
    then have x_unlinked: "?x \<notin> ol_order_part_id ` set (order_links db)"
      using Cons.prems(1) by blast
    have ids: "order_id P \<noteq> order_id m" using Cons.prems(3) t by auto
    have b1: "ol_order_part_id ` set (order_links ?db) \<subseteq> op_order_part_id ` set (order_parts ?db)"
      using Cons.prems(1) by auto
    have old: "part_settled ?db p" if "p \<in> set (order_parts db)" for p
    proof -
      have "op_order_part_id p \<noteq> ?x" using that x_new by (auto simp: image_iff)
      then have "links_of_part ?db (op_order_part_id p) = links_of_part db (op_order_part_id p)"
        by (simp add: links_of_part_def)
      then have "part_settled ?db p = part_settled db p"
        by (intro part_settled_cong) simp_all
      with Cons.prems(2) that show ?thesis by (simp add: well_linked_def list_all_iff)
    qed
    have "filter (\<lambda>l. ol_order_part_id l = ?x) (order_links db) = []"
      using x_unlinked by (auto simp: filter_empty_conv image_iff)
    then have new_links: "links_of_part ?db ?x =
        [\<lparr>ol_order_id = order_id P, ol_order_part_id = ?x\<rparr>,
         \<lparr>ol_order_id = order_id m, ol_order_part_id = ?x\<rparr>]"
      by (simp add: links_of_part_def)
    have types: "order_types ?db oid = order_types db oid" for oid
      by (intro order_types_cong) simp
    have "(([tP], [t]) :: OrderType list \<times> OrderType list) \<in> {([BUY], [SELL]), ([SELL], [BUY])}"
      using t(2) by (cases tP; cases t) simp_all
    then have new: "part_settled ?db \<lparr>op_order_part_id = ?x, op_executed_at = snd (fresh i),
                        op_quantity = min r q, op_price = price m\<rparr>"
      using ids by (simp add: part_settled_def new_links types Cons.prems(3) t(1))
    have b2: "well_linked ?db"
      using old new by (simp add: well_linked_def list_all_iff)
    have b3: "order_types ?db (order_id P) = [tP]" using Cons.prems(3) by (simp add: types)
    have b4: "\<forall>m'\<in>set ms. \<exists>t. order_types ?db (order_id m') = [t] \<and> t \<noteq> tP"
      using Cons.prems(4) by (simp add: types)
    have b5: "\<forall>j\<ge>Suc i. fst (fresh j) \<notin> op_order_part_id ` set (order_parts ?db)"
    proof (intro allI impI)
      fix j assume "Suc i \<le> j"
      then have "fst (fresh j) \<noteq> ?x"
        using Cons.prems(6) unfolding inj_def by (metis Suc_n_not_le_n)
      moreover have "fst (fresh j) \<notin> op_order_part_id ` set (order_parts db)"
        using Cons.prems(5) \<open>Suc i \<le> j\<close> by simp
      ultimately show "fst (fresh j) \<notin> op_order_part_id ` set (order_parts ?db)" by simp
    qed
    from Cons.IH[OF b1 b2 b3 b4 b5 Cons.prems(6), of "r - min r q"]
    obtain r' db' where
      "fulfill_loop fresh (Suc i) P ms (r - min r q) ?db = Inr (r', db')"
      "ol_order_part_id ` set (order_links db') \<subseteq> op_order_part_id ` set (order_parts db')"
      "well_linked db'"
      "map core (orders db') = map core (orders ?db)"
      by blast
    moreover have "fulfill_loop fresh i P (m # ms) r db
                     = fulfill_loop fresh (Suc i) P ms (r - min r q) ?db"
      using False q by (intro fulfill_loop_step) simp_all
    ultimately show ?thesis by simp
  qed
qed

lemma fulfill_loop_prices:
  assumes "\<forall>m\<in>set ms. order_types db (order_id m) \<noteq> []"
  shows "\<exists>r' db' new. fulfill_loop fresh i P ms r db = Inr (r', db')
           \<and> map core (orders db') = map core (orders db)
           \<and> order_parts db' = order_parts db @ new
           \<and> op_price ` set new \<subseteq> price ` set ms"
  using assms
proof (induction ms arbitrary: i r db)
  case Nil
  then show ?case by simp
next
  case (Cons m ms)
  show ?case
  proof (cases "r \<le> 0")
    case True
    then show ?thesis by (simp add: fulfill_loop_stop)
  next
    case False
    obtain q where q: "get_order_remaining_quantity db (order_id m) = Inr q"
      using remaining_defined[of db "order_id m"] Cons.prems by auto
    let ?db = "after_fill fresh i P m (min r q) db"
    have "\<forall>m'\<in>set ms. order_types ?db (order_id m') \<noteq> []"
      using Cons.prems by (simp add: order_types_cong[of ?db db])
    from Cons.IH[OF this, of "Suc i" "r - min r q"]
    obtain r' db' new where
      run: "fulfill_loop fresh (Suc i) P ms (r - min r q) ?db = Inr (r', db')"
      and k: "map core (orders db') = map core (orders ?db)"
      and parts: "order_parts db' = order_parts ?db @ new"
      and prices: "op_price ` set new \<subseteq> price ` set ms"
      by blast
    let ?part = "\<lparr>op_order_part_id = fst (fresh i), op_executed_at = snd (fresh i),
                   op_quantity = min r q, op_price = price m\<rparr>"
    have "fulfill_loop fresh i P (m # ms) r db = Inr (r', db')"
      using False q run by (simp add: fulfill_loop_step)
    moreover have "map core (orders db') = map core (orders db)"
      using k by simp
    moreover have "order_parts db' = order_parts db @ (?part # new)"
      using parts by simp
    moreover have "op_price ` set (?part # new) \<subseteq> price ` set (m # ms)"
      using prices by auto
    ultimately show ?thesis by blast
  qed
qed

section \<open>Facts about \<open>place_order\<close>\<close>

lemma place_order_candidates:
  "place_order fresh db order =
     fulfill_order fresh (add_order db order) order (candidates (add_order db order) order)"
  by (cases "order_type order")
     (simp_all add: place_order_def match_buy_order_def match_sell_order_def candidates_def
        Let_def)

lemma candidates_stored:
  assumes "m \<in> set (candidates db order)"
  shows "m \<in> set (orders db) \<and> order_type m \<noteq> order_type order"
  using assms
  by (cases "order_type order")
     (auto simp: candidates_def open_sell_orders_def open_buy_orders_def get_orders_def)

lemma order_ids_core: "map order_id xs = map fst (map core xs)"
  by (simp add: core_def)

lemma order_types_add_order:
  "order_types (add_order db order) oid =
     order_types db oid @ (if order_id order = oid then [order_type order] else [])"
  by (simp add: order_types_def get_orders_by_id add_order_def)

lemma part_settled_add_order:
  assumes "order_id order \<notin> order_id ` set (orders db)" and "part_settled db p"
  shows "part_settled (add_order db order) p"
proof -
  have none: "order_types db (order_id order) = []"
    using assms(1) order_types_nonempty_iff[of db "order_id order"] by blast
  have keep: "order_types (add_order db order) oid = order_types db oid"
    if "order_types db oid \<noteq> []" for oid
    using that none by (auto simp: order_types_add_order)
  have links: "links_of_part (add_order db order) pid = links_of_part db pid" for pid
    by (simp add: links_of_part_def add_order_def)
  from assms(2) obtain l1 l2 where
    ls: "links_of_part db (op_order_part_id p) = [l1, l2]"
    and ne: "ol_order_id l1 \<noteq> ol_order_id l2"
    and ty: "(order_types db (ol_order_id l1), order_types db (ol_order_id l2))
               \<in> {([BUY], [SELL]), ([SELL], [BUY])}"
    by (auto simp: part_settled_def split: list.splits)
  from ty have "order_types db (ol_order_id l1) \<noteq> []" "order_types db (ol_order_id l2) \<noteq> []"
    by auto
  then have "order_types (add_order db order) (ol_order_id l1) = order_types db (ol_order_id l1)"
    "order_types (add_order db order) (ol_order_id l2) = order_types db (ol_order_id l2)"
    by (simp_all add: keep)
  with ls ne ty show ?thesis
    by (simp add: part_settled_def links)
qed

lemma well_linked_cong:
  assumes "map core (orders db') = map core (orders db)"
      and "order_parts db' = order_parts db"
      and "order_links db' = order_links db"
  shows "well_linked db' = well_linked db"
proof -
  have "part_settled db' p = part_settled db p" for p
    using assms by (intro part_settled_cong) (simp_all add: links_of_part_def)
  then have "part_settled db' = part_settled db" by (rule ext)
  then show ?thesis by (simp add: well_linked_def assms(2))
qed

lemma place_order_consistent:
  assumes "consistent db"
      and "order_id order \<notin> order_id ` set (orders db)"
      and "inj (\<lambda>i. fst (fresh i))"
      and "\<forall>i. fst (fresh i) \<notin> op_order_part_id ` set (order_parts db)"
  shows "\<exists>db' order'. place_order fresh db order = Inr (db', order') \<and> consistent db'"
proof -
  let ?db1 = "add_order db order"
  let ?ms = "candidates ?db1 order"
  have d1: "distinct (map order_id (orders ?db1))"
    using assms(1,2) by (simp add: consistent_def add_order_def)
  have c1: "ol_order_part_id ` set (order_links ?db1) \<subseteq> op_order_part_id ` set (order_parts ?db1)"
    using assms(1) by (simp add: consistent_def add_order_def)
  have "part_settled ?db1 p" if "p \<in> set (order_parts db)" for p
    using assms(1) that
    by (intro part_settled_add_order[OF assms(2)])
       (simp add: consistent_def well_linked_def list_all_iff)
  then have c2: "well_linked ?db1"
    by (simp add: well_linked_def list_all_iff add_order_def)
  have c3: "order_types ?db1 (order_id order) = [order_type order]"
    by (intro order_types_unique[OF d1]) (simp add: add_order_def)
  have c4: "\<forall>m\<in>set ?ms. \<exists>t. order_types ?db1 (order_id m) = [t] \<and> t \<noteq> order_type order"
  proof
    fix m assume "m \<in> set ?ms"
    then have "m \<in> set (orders ?db1)" "order_type m \<noteq> order_type order"
      using candidates_stored by blast+
    then show "\<exists>t. order_types ?db1 (order_id m) = [t] \<and> t \<noteq> order_type order"
      using order_types_unique[OF d1] by blast
  qed
  have c5: "\<forall>j\<ge>0. fst (fresh j) \<notin> op_order_part_id ` set (order_parts ?db1)"
    using assms(4) by (simp add: add_order_def)
  from fulfill_loop_linked[OF c1 c2 c3 c4 c5 assms(3), of "quantity order"]
  obtain r' db' where
    run: "fulfill_loop fresh 0 order ?ms (quantity order) ?db1 = Inr (r', db')"
    and l: "ol_order_part_id ` set (order_links db') \<subseteq> op_order_part_id ` set (order_parts db')"
    and w: "well_linked db'"
    and k: "map core (orders db') = map core (orders ?db1)"
    by blast
  have d: "distinct (map order_id (orders db'))"
    using d1 k by (simp add: order_ids_core)
  have cons: "consistent db'"
    using d l w by (simp add: consistent_def)
  show ?thesis
  proof (cases "r' = 0")
    case True
    let ?db2 = "update_order_status db' (user_id order) CLOSED"
    have "place_order fresh db order = Inr (?db2, order)"
      using run True by (simp add: place_order_candidates fulfill_order_def)
    moreover have "well_linked ?db2 = well_linked db'"
      by (intro well_linked_cong) simp_all
    moreover have "map order_id (orders ?db2) = map order_id (orders db')"
      by (simp add: order_ids_core)
    ultimately show ?thesis
      using d l w by (simp add: consistent_def)
  next
    case False
    then have "place_order fresh db order = Inr (db', order\<lparr>quantity := r'\<rparr>)"
      using run by (simp add: place_order_candidates fulfill_order_def)
    with cons show ?thesis by blast
  qed
qed

lemma reachable_consistent: "reachable db \<Longrightarrow> consistent db"
proof (induction rule: reachable.induct)
  case init
  show ?case by (simp add: consistent_def empty_db_def well_linked_def)
next
  case (step db order fresh db' order')
  from place_order_consistent[OF step.IH step.hyps(2,3,4)] step.hyps(5)
  show ?case by auto
qed

lemma place_order_returns:
  "\<exists>db' order' new. place_order fresh db order = Inr (db', order')
     \<and> order_parts db' = order_parts db @ new
     \<and> op_price ` set new \<subseteq> price ` set (candidates (add_order db order) order)"
proof -
  let ?db1 = "add_order db order"
  let ?ms = "candidates ?db1 order"
  have "\<forall>m\<in>set ?ms. order_types ?db1 (order_id m) \<noteq> []"
    using candidates_stored[of _ ?db1 order] by (auto simp: order_types_nonempty_iff)
  from fulfill_loop_prices[OF this, of fresh 0 order "quantity order"]
  obtain r' db' new where
    run: "fulfill_loop fresh 0 order ?ms (quantity order) ?db1 = Inr (r', db')"
    and parts: "order_parts db' = order_parts ?db1 @ new"
    and prices: "op_price ` set new \<subseteq> price ` set ?ms"
    by blast
  have parts': "order_parts db' = order_parts db @ new"
    using parts by (simp add: add_order_def)
  show ?thesis
  proof (cases "r' = 0")
    case True
    then have "place_order fresh db order
                 = Inr (update_order_status db' (user_id order) CLOSED, order)"
      using run by (simp add: place_order_candidates fulfill_order_def)
    with parts' prices show ?thesis by simp
  next
    case False
    then have "place_order fresh db order = Inr (db', order\<lparr>quantity := r'\<rparr>)"
      using run by (simp add: place_order_candidates fulfill_order_def)
    with parts' prices show ?thesis by blast
  qed
qed

section \<open>The store\<close>

text \<open>
  Claim C9.  Called with \<open>order_id = None\<close> and an \<open>order_part_id\<close>,
  \<open>get_order_parts\<close> returns every stored part that some link references, and the part
  with the given id besides: the \<open>order_part_id\<close> test decides only for the parts
  that no link references.
\<close>

theorem get_order_parts_returns_all_linked:
  "get_order_parts db None (Some pid) =
     filter (\<lambda>p. op_order_part_id p \<in> ol_order_part_id ` set (order_links db)
                 \<or> op_order_part_id p = pid)
       (order_parts db)"
  by (simp add: get_order_parts_eq collect_links_eq)

text \<open>
  Claim C6.  \<open>get_order_remaining_quantity\<close> fails when the store has no order with the
  given id (Python raises \<open>IndexError\<close> at \<open>orders[0]\<close>); otherwise it returns the
  quantity of the (first) order with that id minus the sum of the quantities of the parts
  that a link record ties to that order id.
\<close>

theorem get_order_remaining_quantity_spec:
  "(oid \<notin> order_id ` set (orders db) \<longrightarrow>
      get_order_remaining_quantity db oid = Inl IndexError)
   \<and> (find (\<lambda>order. order_id order = oid) (orders db) = Some found \<longrightarrow>
      get_order_remaining_quantity db oid =
        Inr (quantity found
             - sum_list (map op_quantity
                 (filter (\<lambda>p. op_order_part_id p \<in>
                      ol_order_part_id ` set (filter (\<lambda>l. ol_order_id l = oid) (order_links db)))
                    (order_parts db)))))"
proof (intro conjI impI)
  assume "oid \<notin> order_id ` set (orders db)"
  then have "filter (\<lambda>order. order_id order = oid) (orders db) = []"
    by (auto simp: filter_empty_conv image_iff)
  then show "get_order_remaining_quantity db oid = Inl IndexError"
    by (simp add: get_order_remaining_quantity_def get_orders_by_id)
next
  assume "find (\<lambda>order. order_id order = oid) (orders db) = Some found"
  then obtain rest where "filter (\<lambda>order. order_id order = oid) (orders db) = found # rest"
    by (auto simp: find_filter_id split: list.splits)
  then show "get_order_remaining_quantity db oid =
        Inr (quantity found
             - sum_list (map op_quantity
                 (filter (\<lambda>p. op_order_part_id p \<in>
                      ol_order_part_id ` set (filter (\<lambda>l. ol_order_id l = oid) (order_links db)))
                    (order_parts db))))"
    by (simp add: get_order_remaining_quantity_def get_orders_by_id get_order_parts_eq
          collect_links_eq)
qed

theorem get_order_remaining_quantity_spec_witness:
  "99 \<notin> order_id ` set (orders store2)
   \<and> get_order_remaining_quantity store2 99 = Inl IndexError
   \<and> find (\<lambda>order. order_id order = 1) (orders store2) = Some demo_buy
   \<and> get_order_remaining_quantity store2 1 = Inr 5"
  using get_order_remaining_quantity_spec[of 99 store2]
        get_order_remaining_quantity_spec[of 1 store2 demo_buy]
  by (simp add: demo_defs)

text \<open>
  Claim C2.  \<open>update_order_status\<close> has no failure at all, and it does not look at
  \<open>order_id\<close>: it compares the stored \<open>user_id\<close> with \<open>str(order_id)\<close>.  On the
  store holding the order with \<open>order_id = 1\<close> (whose \<open>user_id\<close> is the integer 1), the
  call for \<open>order_id = 1\<close> changes nothing, the order stays OPEN.  On a store holding an
  order whose \<open>user_id\<close> is the string \<open>7\<close> and whose \<open>order_id\<close> is 21, the call with
  the argument 7 closes that order.
\<close>

theorem update_order_status_keys_on_user_id:
  "order_id demo_buy = 1 \<and> order_status demo_buy = OPEN
   \<and> update_order_status store1 (PUuid 1) CLOSED = store1
   \<and> update_order_status
        \<lparr>orders = [demo_buy, str_user_order], order_parts = [], order_links = []\<rparr> (PInt 7) CLOSED
       = \<lparr>orders = [demo_buy, str_user_order\<lparr>order_status := CLOSED\<rparr>],
          order_parts = [], order_links = []\<rparr>"
  by (simp add: store_defs demo_defs str_user_order_def dec_digits.simps digit_char_def)

section \<open>The matching engine on concrete stores\<close>

text \<open>
  Claim C1.  The status of a stored order does not follow its remaining quantity: after
  the driver's second placement the SELL order (id 2) has remaining quantity 0 and its
  stored status is still OPEN, because \<open>update_order_status\<close> finds no order whose
  \<open>user_id\<close> equals the string it is given.
\<close>

theorem filled_order_stays_open:
  "place_order (fresh_from 200 2) store1 demo_sell = Inr (store2, demo_sell)
   \<and> get_order_remaining_quantity store2 (order_id demo_sell) = Inr 0
   \<and> map order_status (get_orders store2 (Some (order_id demo_sell)) None None None None None None)
       = [OPEN]"
  by (simp add: store_defs exchange_defs demo_defs fulfill_loop_unfold)

text \<open>
  Claim C8.  A part of quantity 0 is recorded.  The first SELL fills the BUY (id 41)
  completely; \<open>_fulfill_order\<close> asks for the BUY to be closed, \<open>update_order_status\<close>
  closes nothing, so the BUY is still OPEN with remaining quantity 0.  The next SELL on the
  item takes it as a candidate and fills \<open>min(5, 0) = 0\<close> against it.
\<close>

theorem zero_quantity_part:
  "place_order (fresh_from 100 1) empty_db full_buy = Inr (zstore1, full_buy)
   \<and> place_order (fresh_from 200 2) zstore1 demo_sell = Inr (zstore2, demo_sell)
   \<and> get_order_remaining_quantity zstore2 (order_id full_buy) = Inr 0
   \<and> place_order (fresh_from 300 3) zstore2 demo_sell2 = Inr (zstore3, demo_sell2)
   \<and> map op_quantity (order_parts zstore3) = [5, 0]"
  by (simp add: store_defs exchange_defs demo_defs fulfill_loop_unfold)

text \<open>
  Claim C10.  Self-trading is permitted.  The candidate lists do not depend on the
  \<open>user_id\<close> of the incoming order; and when user 7 has a SELL resting on item 1001 and
  places a matching BUY, \<open>place_order\<close> records a part whose two links name the orders
  12 and 11, both of user 7.
\<close>

theorem self_trade:
  "open_sell_orders db (order\<lparr>user_id := u\<rparr>) = open_sell_orders db order
   \<and> open_buy_orders db (order\<lparr>user_id := u\<rparr>) = open_buy_orders db order
   \<and> place_order (fresh_from 100 1) empty_db self_sell = Inr (self_store1, self_sell)
   \<and> place_order (fresh_from 500 2) self_store1 self_buy = Inr (self_store2, self_buy)
   \<and> map op_order_part_id (order_parts self_store2) = [500]
   \<and> map ol_order_id (links_of_part self_store2 500) = [12, 11]
   \<and> map user_id (get_orders self_store2 (Some 12) None None None None None None) = [PInt 7]
   \<and> map user_id (get_orders self_store2 (Some 11) None None None None None None) = [PInt 7]"
  by (simp add: store_defs exchange_defs demo_defs links_of_part_def fulfill_loop_unfold)

section \<open>Fill allocation\<close>

text \<open>
  Claim C5.  A run of \<open>_fulfill_order\<close> on a primary order and a list of candidates
  appends one part per step, the quantities of the new parts are the fills of the
  allocation rule (each step fills \<open>min(remaining, candidate's remaining quantity)\<close>,
  decrements \<open>remaining\<close>, and stops once \<open>remaining \<le> 0\<close>), and their sum is
  \<open>min(primary_order.quantity, sum of the candidates' remaining quantities)\<close>; equal
  prices play no role.  The candidates are stored orders with pairwise different ids,
  different from the primary order's, with remaining quantities \<open>qs\<close> that are not
  negative, and the new part ids are not yet referenced by a link.
\<close>

theorem fulfill_order_allocation:
  assumes "map (\<lambda>m. get_order_remaining_quantity db (order_id m)) matching_orders = map Inr qs"
      and "distinct (map order_id matching_orders)"
      and "order_id primary_order \<notin> order_id ` set matching_orders"
      and "\<forall>j. fst (fresh j) \<notin> ol_order_part_id ` set (order_links db)"
      and "0 \<le> quantity primary_order"
      and "\<forall>q\<in>set qs. 0 \<le> q"
  shows "\<exists>db' order' new.
           fulfill_order fresh db primary_order matching_orders = Inr (db', order')
         \<and> order_parts db' = order_parts db @ new
         \<and> map op_quantity new = allocation (quantity primary_order) qs
         \<and> sum_list (map op_quantity new) = min (quantity primary_order) (sum_list qs)"
proof -
  have "\<forall>j\<ge>0. \<forall>m\<in>set matching_orders.
          fst (fresh j) \<notin> set (collect_links db (Some (order_id m)))"
    using assms(4) by (auto simp: collect_links_eq)
  from fulfill_loop_allocation[OF assms(1-3) this, of "quantity primary_order"]
  obtain db' new where
    run: "fulfill_loop fresh 0 primary_order matching_orders (quantity primary_order) db
            = Inr (quantity primary_order - sum_list (allocation (quantity primary_order) qs), db')"
    and parts: "order_parts db' = order_parts db @ new"
    and fills: "map op_quantity new = allocation (quantity primary_order) qs"
    by blast
  have total: "sum_list (map op_quantity new) = min (quantity primary_order) (sum_list qs)"
    using fills allocation_total[OF assms(5,6)] by simp
  show ?thesis
  proof (cases "quantity primary_order - sum_list (allocation (quantity primary_order) qs) = 0")
    case True
    then have "fulfill_order fresh db primary_order matching_orders
                 = Inr (update_order_status db' (user_id primary_order) CLOSED, primary_order)"
      using run by (simp add: fulfill_order_def)
    with parts fills total show ?thesis by simp
  next
    case False
    then have "fulfill_order fresh db primary_order matching_orders
                 = Inr (db', primary_order\<lparr>quantity :=
                      quantity primary_order - sum_list (allocation (quantity primary_order) qs)\<rparr>)"
      using run by (simp add: fulfill_order_def)
    with parts fills total show ?thesis by blast
  qed
qed

theorem fulfill_order_allocation_witness:
  "open_sell_orders tie_store tie_buy = [tie_sell_a, tie_sell_b]
   \<and> map (\<lambda>m. get_order_remaining_quantity tie_store (order_id m)) [tie_sell_a, tie_sell_b]
       = map Inr [3, 4]
   \<and> distinct (map order_id [tie_sell_a, tie_sell_b])
   \<and> order_id tie_buy \<notin> order_id ` set [tie_sell_a, tie_sell_b]
   \<and> 0 \<le> quantity tie_buy
   \<and> (\<exists>db' order' new.
         fulfill_order (fresh_from 600 9) tie_store tie_buy [tie_sell_a, tie_sell_b]
           = Inr (db', order')
       \<and> order_parts db' = order_parts tie_store @ new
       \<and> map op_quantity new = [3, 2]
       \<and> sum_list (map op_quantity new) = 5)"
  using fulfill_order_allocation
          [of tie_store "[tie_sell_a, tie_sell_b]" "[3, 4]" tie_buy "fresh_from 600 9"]
  by (simp add: store_defs open_sell_orders_def tie_defs)

section \<open>Candidates of a BUY\<close>

text \<open>
  Claim C4.  When a BUY order is placed, the list handed to \<open>_fulfill_order\<close> is the
  list of the stored orders that are OPEN, of type SELL, on the same item and priced at
  most at the buy order's price (the bound included), sorted by price in ascending order,
  orders of one price in the order of the store; and every part the placement records has
  a price that is at most the buy order's price.  (\<open>open_asks\<close> reads the store before
  the buy order is added; the buy order, not being a SELL, is no candidate of itself.)
\<close>

theorem buy_candidates:
  assumes "order_type buy_order = BUY"
  shows "place_order fresh db buy_order
           = fulfill_order fresh (add_order db buy_order) buy_order
               (open_sell_orders (add_order db buy_order) buy_order)
       \<and> open_sell_orders (add_order db buy_order) buy_order = sort_key price (open_asks db buy_order)
       \<and> set (open_sell_orders (add_order db buy_order) buy_order) = set (open_asks db buy_order)
       \<and> sorted (map price (open_sell_orders (add_order db buy_order) buy_order))
       \<and> (\<forall>k. filter (\<lambda>order. price order = k) (open_sell_orders (add_order db buy_order) buy_order)
               = filter (\<lambda>order. price order = k) (open_asks db buy_order))
       \<and> (\<exists>db' order' new.
             place_order fresh db buy_order = Inr (db', order')
           \<and> order_parts db' = order_parts db @ new
           \<and> (\<forall>p\<in>set new. op_price p \<le> price buy_order))"
proof -
  let ?db1 = "add_order db buy_order"
  have cands: "open_sell_orders ?db1 buy_order = sort_key price (open_asks db buy_order)"
    using assms
    by (simp add: open_sell_orders_def open_asks_def get_orders_def add_order_def conj_ac
          cong: conj_cong)
  have "candidates ?db1 buy_order = open_sell_orders ?db1 buy_order"
    using assms by (simp add: candidates_def)
  with place_order_returns[of fresh db buy_order] cands
  obtain db' order' new where
    run: "place_order fresh db buy_order = Inr (db', order')"
    and parts: "order_parts db' = order_parts db @ new"
    and prices: "op_price ` set new \<subseteq> price ` set (open_asks db buy_order)"
    by auto
  have "\<forall>p\<in>set new. op_price p \<le> price buy_order"
    using prices by (auto simp: open_asks_def)
  with run parts have fills: "\<exists>db' order' new.
             place_order fresh db buy_order = Inr (db', order')
           \<and> order_parts db' = order_parts db @ new
           \<and> (\<forall>p\<in>set new. op_price p \<le> price buy_order)"
    by blast
  have call: "place_order fresh db buy_order
           = fulfill_order fresh ?db1 buy_order (open_sell_orders ?db1 buy_order)"
    using assms by (simp add: place_order_def match_buy_order_def Let_def)
  show ?thesis
    using call fills by (simp add: cands sort_key_stable)
qed

theorem buy_candidates_witness:
  "order_type tie_buy = BUY
   \<and> open_asks ask_book tie_buy = [tie_sell_a, cheap_sell, tie_sell_b]
   \<and> open_sell_orders (add_order ask_book tie_buy) tie_buy = [cheap_sell, tie_sell_a, tie_sell_b]
   \<and> map price [cheap_sell, tie_sell_a, tie_sell_b] = [90, 100, 100]"
  using buy_candidates[of tie_buy "fresh_from 600 9" ask_book]
  by (simp add: open_asks_def ask_book_def tie_defs cheap_sell_def dear_sell_def)

section \<open>Parts and their links\<close>

text \<open>
  Claim C7.  In every store that calls of \<open>place_order\<close> produce from the empty store,
  every part is referenced by exactly two link records, and the two links name two
  different orders, one a BUY and the other a SELL; and a further call returns and leaves
  such a store.  The ids are fresh: a new order's \<open>order_id\<close> is not in the store, the
  part ids drawn during a call differ from each other and from the stored ones.
\<close>

theorem every_part_settled:
  assumes "reachable db"
  shows "list_all (part_settled db) (order_parts db)
       \<and> (order_id order \<notin> order_id ` set (orders db) \<longrightarrow>
          inj (\<lambda>i. fst (fresh i)) \<longrightarrow>
          (\<forall>i. fst (fresh i) \<notin> op_order_part_id ` set (order_parts db)) \<longrightarrow>
          (\<exists>db' order'. place_order fresh db order = Inr (db', order')
             \<and> reachable db'
             \<and> list_all (part_settled db') (order_parts db')))"
proof (intro conjI impI)
  show "list_all (part_settled db) (order_parts db)"
    using reachable_consistent[OF assms] by (simp add: consistent_def well_linked_def)
next
  assume new: "order_id order \<notin> order_id ` set (orders db)"
    and inj: "inj (\<lambda>i. fst (fresh i))"
    and fresh: "\<forall>i. fst (fresh i) \<notin> op_order_part_id ` set (order_parts db)"
  from place_order_consistent[OF reachable_consistent[OF assms] new inj fresh]
  obtain db' order' where run: "place_order fresh db order = Inr (db', order')"
    and "consistent db'"
    by blast
  moreover have "reachable db'"
    by (rule reachable.step[OF assms new inj fresh run])
  ultimately show "\<exists>db' order'. place_order fresh db order = Inr (db', order')
             \<and> reachable db'
             \<and> list_all (part_settled db') (order_parts db')"
    by (auto simp: consistent_def well_linked_def)
qed

theorem every_part_settled_witness:
  "reachable store1
   \<and> order_id demo_sell \<notin> order_id ` set (orders store1)
   \<and> inj (\<lambda>i. fst (fresh_from 200 2 i))
   \<and> place_order (fresh_from 200 2) store1 demo_sell = Inr (store2, demo_sell)
   \<and> reachable store2
   \<and> list_all (part_settled store2) (order_parts store2)
   \<and> links_of_part store2 200
        = [\<lparr>ol_order_id = 2, ol_order_part_id = 200\<rparr>, \<lparr>ol_order_id = 1, ol_order_part_id = 200\<rparr>]
   \<and> order_types store2 2 = [SELL] \<and> order_types store2 1 = [BUY]"
proof -
  have p1: "place_order (fresh_from 100 1) empty_db demo_buy = Inr (store1, demo_buy)"
    by (simp add: store_defs exchange_defs demo_defs fulfill_loop_unfold)
  have p2: "place_order (fresh_from 200 2) store1 demo_sell = Inr (store2, demo_sell)"
    by (simp add: store_defs exchange_defs demo_defs fulfill_loop_unfold)
  have f: "inj (\<lambda>i. fst (fresh_from b t i))" for b t
    by (simp add: fresh_from_def inj_def)
  have r1: "reachable store1"
    by (rule reachable.step[OF reachable.init _ f _ p1]) (simp_all add: demo_defs)
  have new: "order_id demo_sell \<notin> order_id ` set (orders store1)"
    by (simp add: demo_defs)
  have fresh: "\<forall>i. fst (fresh_from 200 2 i) \<notin> op_order_part_id ` set (order_parts store1)"
    by (simp add: demo_defs)
  from every_part_settled[OF r1, of demo_sell "fresh_from 200 2"] new f fresh p2
  have "reachable store2 \<and> list_all (part_settled store2) (order_parts store2)"
    by simp
  moreover have "links_of_part store2 200
        = [\<lparr>ol_order_id = 2, ol_order_part_id = 200\<rparr>, \<lparr>ol_order_id = 1, ol_order_part_id = 200\<rparr>]"
    by (simp add: demo_defs links_of_part_def)
  moreover have "order_types store2 2 = [SELL]" "order_types store2 1 = [BUY]"
    by (simp_all add: demo_defs order_types_def get_orders_def)
  ultimately show ?thesis
    using r1 new f p2 by simp
qed

section \<open>The second scenario\<close>

text \<open>
  Claim C3, as stated, at the driver's ids: the part recorded by the placement of the SELL
  does not carry the price 140 (it carries the resting order's price), and the stored
  status of both orders is OPEN afterwards.
\<close>

theorem scenario2_counterexample:
  "place_order (fresh_from 200 2) store1 demo_sell = Inr (store2, demo_sell)
   \<and> map op_price (order_parts store2) \<noteq> [140]
   \<and> map order_status (orders store2) = [OPEN, OPEN]"
  by (simp add: store_defs exchange_defs demo_defs fulfill_loop_unfold)

text \<open>
  Claim C3, amended.  From a store holding exactly one OPEN BUY order (item 1001,
  quantity 10, price 150) and nothing else, placing SELL(item 1001, quantity 5, price 140)
  returns and records exactly one part, of quantity 5 and price 150 (the price of the
  resting BUY), and exactly two links to that part, one for the SELL and one for the BUY;
  the stored orders are the two orders, the stored status of the BUY is OPEN and its
  remaining quantity is 5.
\<close>

theorem scenario2_partial_fill:
  "\<exists>db'. place_order fresh \<lparr>orders = [resting_buy b ub], order_parts = [], order_links = []\<rparr>
            (incoming_sell s us) = Inr (db', incoming_sell s us)
     \<and> order_parts db' = [\<lparr>op_order_part_id = fst (fresh 0), op_executed_at = snd (fresh 0),
                            op_quantity = 5, op_price = 150\<rparr>]
     \<and> order_links db' = [\<lparr>ol_order_id = s, ol_order_part_id = fst (fresh 0)\<rparr>,
                           \<lparr>ol_order_id = b, ol_order_part_id = fst (fresh 0)\<rparr>]
     \<and> map core (orders db') = [core (resting_buy b ub), core (incoming_sell s us)]
     \<and> map order_status (get_orders db' None None None (Some BUY) None None None) = [OPEN]
     \<and> get_order_remaining_quantity db' b = Inr 5"
  by (simp add: store_defs exchange_defs resting_buy_def incoming_sell_def core_def
        fulfill_loop_unfold)

end
